theory Spec2Isabelle
  imports Main "HOL-Library.AList" "HOL-Library.Multiset" "HOL-Library.Char_ord"
    "HOL-Library.List_Lexorder"
begin

section \<open>Data model (models.go)\<close>

text \<open>
  A Go \<^verbatim>\<open>string\<close> is a sequence of bytes, so it is a \<^typ>\<open>string\<close> here
  (\<^typ>\<open>char\<close> is a byte). A \<^verbatim>\<open>time.Time\<close> is kept as the instant it denotes:
  the number of nanoseconds since Go's zero time, January 1 of year 1, 00:00:00 UTC.
  The zone and the monotonic clock reading that a Go value also carries do not take part
  in \<^verbatim>\<open>Before\<close> or \<^verbatim>\<open>Sub\<close> on wall-clock instants and are left out.
  A Go \<^verbatim>\<open>int\<close> is an \<^typ>\<open>int\<close>: the program does no arithmetic on it.
\<close>

type_synonym gotime = int

definition zeroTime :: gotime where
  "zeroTime = 0"

definition Before :: "gotime \<Rightarrow> gotime \<Rightarrow> bool" where
  "Before t u = (t < u)"

definition minDuration :: int where
  "minDuration = - (2 ^ 63)"

definition maxDuration :: int where
  "maxDuration = 2 ^ 63 - 1"

text \<open>\<^verbatim>\<open>t.Sub(u)\<close>: the difference as a 64-bit duration, saturating.\<close>

definition Sub :: "gotime \<Rightarrow> gotime \<Rightarrow> int" where
  "Sub t u =
     (let d = t - u
      in if minDuration \<le> d \<and> d \<le> maxDuration then d
         else if Before t u then minDuration else maxDuration)"

record Execution =
  ID :: string
  CommandID :: string
  Name :: string
  Workdir :: string
  Command :: string
  Status :: string
  Output :: string
  ExitCode :: int
  ExecutedBy :: string
  StartedAt :: gotime
  EndedAt :: gotime
  Duration :: string

record ExecuteRequest =
  reqWorkdir :: string
  reqCommand :: string

record ExecuteResponse =
  ExecutionID :: string
  respStatus :: string
  Message :: string

text \<open>
  A Go \<^verbatim>\<open>error\<close> that the program reads through its message only is that message
  (\<open>None\<close> for \<^verbatim>\<open>nil\<close>). The error of \<^verbatim>\<open>cmd.Run()\<close> is also asked for its
  type: an \<^verbatim>\<open>*exec.ExitError\<close>, read through \<^verbatim>\<open>ExitCode()\<close>, or another error.
\<close>

datatype run_error = ExitError int | StartError string

section \<open>Validation (executor.go, ValidateCommand)\<close>

text \<open>
  \<^verbatim>\<open>strings.TrimSpace\<close> belongs to Go's standard library. It removes, at both ends,
  the runes that \<^verbatim>\<open>unicode.IsSpace\<close> accepts. On the bytes of a string these are the
  UTF-8 encodings below (U+0009 to U+000D, U+0020, U+0085, U+00A0, U+1680, U+2000 to
  U+200A, U+2028, U+2029, U+202F, U+205F, U+3000); a byte that starts no such encoding
  stops the trimming.
\<close>

definition whiteSpace :: "string list" where
  "whiteSpace =
     [[CHR 0x09], [CHR 0x0A], [CHR 0x0B], [CHR 0x0C], [CHR 0x0D], [CHR 0x20],
      [CHR 0xC2, CHR 0x85], [CHR 0xC2, CHR 0xA0],
      [CHR 0xE1, CHR 0x9A, CHR 0x80],
      [CHR 0xE2, CHR 0x80, CHR 0x80], [CHR 0xE2, CHR 0x80, CHR 0x81],
      [CHR 0xE2, CHR 0x80, CHR 0x82], [CHR 0xE2, CHR 0x80, CHR 0x83],
      [CHR 0xE2, CHR 0x80, CHR 0x84], [CHR 0xE2, CHR 0x80, CHR 0x85],
      [CHR 0xE2, CHR 0x80, CHR 0x86], [CHR 0xE2, CHR 0x80, CHR 0x87],
      [CHR 0xE2, CHR 0x80, CHR 0x88], [CHR 0xE2, CHR 0x80, CHR 0x89],
      [CHR 0xE2, CHR 0x80, CHR 0x8A],
      [CHR 0xE2, CHR 0x80, CHR 0xA8], [CHR 0xE2, CHR 0x80, CHR 0xA9],
      [CHR 0xE2, CHR 0x80, CHR 0xAF], [CHR 0xE2, CHR 0x81, CHR 0x9F],
      [CHR 0xE3, CHR 0x80, CHR 0x80]]"

text \<open>The number of bytes of the white-space rune a string starts with; 0 when it starts with none.\<close>

definition spaceWidth :: "string \<Rightarrow> nat" where
  "spaceWidth s =
     (case find (\<lambda>w. take (length w) s = w) whiteSpace of
        None \<Rightarrow> 0
      | Some w \<Rightarrow> length w)"

lemma spaceWidth_Nil: "spaceWidth [] = 0"
  by (simp add: spaceWidth_def whiteSpace_def)

function TrimLeft :: "string \<Rightarrow> string" where
  "TrimLeft s = (if spaceWidth s = 0 then s else TrimLeft (drop (spaceWidth s) s))"
  by pat_completeness auto
termination
proof (relation "measure length")
  show "wf (measure length)" by simp
next
  fix s :: string
  assume "spaceWidth s \<noteq> 0"
  then have "s \<noteq> []" using spaceWidth_Nil by auto
  with \<open>spaceWidth s \<noteq> 0\<close> show "(drop (spaceWidth s) s, s) \<in> measure length"
    by simp
qed

declare TrimLeft.simps [simp del]

text \<open>
  The trailing runes are read from the end: the string is reversed, and the reversed
  encodings are looked for at its head.
\<close>

definition spaceWidthRight :: "string \<Rightarrow> nat" where
  "spaceWidthRight s =
     (case find (\<lambda>w. take (length w) (rev s) = rev w) whiteSpace of
        None \<Rightarrow> 0
      | Some w \<Rightarrow> length w)"

lemma spaceWidthRight_Nil: "spaceWidthRight [] = 0"
  by (simp add: spaceWidthRight_def whiteSpace_def)

function TrimRight :: "string \<Rightarrow> string" where
  "TrimRight s =
     (if spaceWidthRight s = 0 then s
      else TrimRight (take (length s - spaceWidthRight s) s))"
  by pat_completeness auto
termination
proof (relation "measure length")
  show "wf (measure length)" by simp
next
  fix s :: string
  assume "spaceWidthRight s \<noteq> 0"
  then have "s \<noteq> []" using spaceWidthRight_Nil by auto
  with \<open>spaceWidthRight s \<noteq> 0\<close>
  show "(take (length s - spaceWidthRight s) s, s) \<in> measure length"
    by simp
qed

declare TrimRight.simps [simp del]

definition TrimSpace :: "string \<Rightarrow> string" where
  "TrimSpace s = TrimRight (TrimLeft s)"

text \<open>\<^verbatim>\<open>ValidateCommand\<close> returns \<^verbatim>\<open>nil\<close> (\<open>None\<close>) or an error with a message.\<close>

definition ValidateCommand :: "string \<Rightarrow> string \<Rightarrow> string option" where
  "ValidateCommand workdir command =
     (if TrimSpace command = [] then Some ''command cannot be empty''
      else if TrimSpace workdir = [] then Some ''workdir cannot be empty''
      else None)"

section \<open>Persistence (storage.go)\<close>

text \<open>
  \<^verbatim>\<open>encoding/json\<close> and the file system are outside the repository. What the
  repository fixes is the record type and its field tags (models.go):
  \<^verbatim>\<open>command_id\<close> and \<^verbatim>\<open>duration\<close> are strings tagged \<^verbatim>\<open>omitempty\<close>, so the
  member is left out when the string is empty; \<^verbatim>\<open>ended_at\<close> is tagged
  \<^verbatim>\<open>omitempty\<close> too, but a \<^verbatim>\<open>time.Time\<close> is a struct and is never empty for
  \<^verbatim>\<open>encoding/json\<close>, so the member is always written; every other member is always
  written. A missing member leaves the field of the decoded record at its zero value.

  The file's text is kept as the JSON value it denotes: an object with one member per
  map key (written in the order of the sorted keys), each an object whose members are
  present (\<open>Some\<close>) or absent (\<open>None\<close>). From the library's documentation: a string is
  written coerced to valid UTF-8, each byte that starts no valid encoding replaced by
  U+FFFD (bytes EF BF BD); a time is written in RFC 3339 with nanoseconds and read back
  as the same instant, and writing it fails when its year is outside 0..9999.
\<close>

definition between :: "nat \<Rightarrow> nat \<Rightarrow> char \<Rightarrow> bool" where
  "between lo hi c = (lo \<le> of_char c \<and> of_char c \<le> hi)"

text \<open>
  The width of the UTF-8 encoding a string starts with (\<^verbatim>\<open>utf8.DecodeRuneInString\<close>),
  or 0 when its first byte starts no valid encoding.
\<close>

fun runeWidth :: "string \<Rightarrow> nat" where
  "runeWidth [] = 0"
| "runeWidth (c # cs) =
     (if between 0x00 0x7F c then 1
      else if between 0xC2 0xDF c then
        (case cs of
           c1 # _ \<Rightarrow> if between 0x80 0xBF c1 then 2 else 0
         | _ \<Rightarrow> 0)
      else if between 0xE0 0xEF c then
        (case cs of
           c1 # c2 # _ \<Rightarrow>
             if between (if c = CHR 0xE0 then 0xA0 else 0x80)
                  (if c = CHR 0xED then 0x9F else 0xBF) c1
                \<and> between 0x80 0xBF c2
             then 3 else 0
         | _ \<Rightarrow> 0)
      else if between 0xF0 0xF4 c then
        (case cs of
           c1 # c2 # c3 # _ \<Rightarrow>
             if between (if c = CHR 0xF0 then 0x90 else 0x80)
                  (if c = CHR 0xF4 then 0x8F else 0xBF) c1
                \<and> between 0x80 0xBF c2 \<and> between 0x80 0xBF c3
             then 4 else 0
         | _ \<Rightarrow> 0)
      else 0)"

text \<open>A string as it comes back after being written to JSON and read again.\<close>

function toValidUTF8 :: "string \<Rightarrow> string" where
  "toValidUTF8 [] = []"
| "toValidUTF8 (c # cs) =
     (if runeWidth (c # cs) = 0 then [CHR 0xEF, CHR 0xBF, CHR 0xBD] @ toValidUTF8 cs
      else take (runeWidth (c # cs)) (c # cs)
             @ toValidUTF8 (drop (runeWidth (c # cs)) (c # cs)))"
  by pat_completeness auto
termination
  by (relation "measure length") auto

text \<open>\<^verbatim>\<open>utf8.ValidString\<close>.\<close>

function validUTF8 :: "string \<Rightarrow> bool" where
  "validUTF8 [] = True"
| "validUTF8 (c # cs) =
     (if runeWidth (c # cs) = 0 then False
      else validUTF8 (drop (runeWidth (c # cs)) (c # cs)))"
  by pat_completeness auto
termination
  by (relation "measure length") auto

definition nanosecondsPerDay :: int where
  "nanosecondsPerDay = 86400 * 1000000000"

text \<open>The instants of the years 0 to 9999: year 0 has 366 days, the years 1 to 9999 have 3652059.\<close>

definition jsonTime :: "gotime \<Rightarrow> bool" where
  "jsonTime t = (- (366 * nanosecondsPerDay) \<le> t \<and> t < 3652059 * nanosecondsPerDay)"

record ExecutionJSON =
  json_id :: "string option"
  json_command_id :: "string option"
  json_name :: "string option"
  json_workdir :: "string option"
  json_command :: "string option"
  json_status :: "string option"
  json_output :: "string option"
  json_exit_code :: "int option"
  json_executed_by :: "string option"
  json_started_at :: "gotime option"
  json_ended_at :: "gotime option"
  json_duration :: "string option"

definition omitempty :: "string \<Rightarrow> string option" where
  "omitempty s = (if s = [] then None else Some (toValidUTF8 s))"

definition marshalExecution :: "Execution \<Rightarrow> string + ExecutionJSON" where
  "marshalExecution e =
     (if \<not> jsonTime (StartedAt e) \<or> \<not> jsonTime (EndedAt e)
      then Inl ''Time.MarshalJSON: year outside of range [0,9999]''
      else Inr \<lparr>json_id = Some (toValidUTF8 (ID e)),
                json_command_id = omitempty (CommandID e),
                json_name = Some (toValidUTF8 (Name e)),
                json_workdir = Some (toValidUTF8 (Workdir e)),
                json_command = Some (toValidUTF8 (Command e)),
                json_status = Some (toValidUTF8 (Status e)),
                json_output = Some (toValidUTF8 (Output e)),
                json_exit_code = Some (ExitCode e),
                json_executed_by = Some (toValidUTF8 (ExecutedBy e)),
                json_started_at = Some (StartedAt e),
                json_ended_at = Some (EndedAt e),
                json_duration = omitempty (Duration e)\<rparr>)"

definition orZero :: "string option \<Rightarrow> string" where
  "orZero m = (case m of None \<Rightarrow> [] | Some s \<Rightarrow> s)"

definition unmarshalExecution :: "ExecutionJSON \<Rightarrow> Execution" where
  "unmarshalExecution j =
     \<lparr>ID = orZero (json_id j),
      CommandID = orZero (json_command_id j),
      Name = orZero (json_name j),
      Workdir = orZero (json_workdir j),
      Command = orZero (json_command j),
      Status = orZero (json_status j),
      Output = orZero (json_output j),
      ExitCode = (case json_exit_code j of None \<Rightarrow> 0 | Some n \<Rightarrow> n),
      ExecutedBy = orZero (json_executed_by j),
      StartedAt = (case json_started_at j of None \<Rightarrow> zeroTime | Some t \<Rightarrow> t),
      EndedAt = (case json_ended_at j of None \<Rightarrow> zeroTime | Some t \<Rightarrow> t),
      Duration = orZero (json_duration j)\<rparr>"

text \<open>The members of the top-level object, in the order they are written; the first error stops the encoding.\<close>

fun marshalMembers :: "(string \<times> Execution) list \<Rightarrow> string + (string \<times> ExecutionJSON) list" where
  "marshalMembers [] = Inr []"
| "marshalMembers ((k, e) # m) =
     (case marshalExecution e of
        Inl err \<Rightarrow> Inl err
      | Inr j \<Rightarrow>
          (case marshalMembers m of
             Inl err \<Rightarrow> Inl err
           | Inr js \<Rightarrow> Inr ((toValidUTF8 k, j) # js)))"

definition MarshalIndent :: "(string \<times> Execution) list \<Rightarrow> string + (string \<times> ExecutionJSON) list" where
  "MarshalIndent m = marshalMembers (sort_key fst m)"

text \<open>
  \<^verbatim>\<open>json.Unmarshal\<close> into the fresh map of \<^verbatim>\<open>LoadExecutions\<close>: each member sets its
  key, a later member with the same key replacing an earlier one.
\<close>

definition Unmarshal :: "(string \<times> ExecutionJSON) list \<Rightarrow> (string \<times> Execution) list" where
  "Unmarshal doc = fold (\<lambda>(k, j) m. AList.update k (unmarshalExecution j) m) doc []"

text \<open>
  The bytes of \<^verbatim>\<open>executions.json\<close>: a document of the shape above, no bytes at all,
  or bytes that \<^verbatim>\<open>json.Unmarshal\<close> rejects. The file itself exists with such bytes,
  does not exist, or cannot be read.
\<close>

datatype file_data = Document "(string \<times> ExecutionJSON) list" | NoBytes | Malformed string

datatype disk_file = NoFile | Unreadable string | Stored file_data

text \<open>
  What the operating system does with one \<^verbatim>\<open>os.WriteFile\<close>: it writes the data, or
  it fails with a message and leaves the file in some state (untouched, truncated, ...).
\<close>

datatype write_outcome = WriteOk | WriteFails string disk_file

definition WriteFile :: "write_outcome \<Rightarrow> file_data \<Rightarrow> disk_file \<Rightarrow> string option \<times> disk_file" where
  "WriteFile wr data f =
     (case wr of
        WriteOk \<Rightarrow> (None, Stored data)
      | WriteFails msg f' \<Rightarrow> (Some msg, f'))"

definition SaveExecutions ::
  "write_outcome \<Rightarrow> (string \<times> Execution) list \<Rightarrow> disk_file \<Rightarrow> string option \<times> disk_file" where
  "SaveExecutions wr executions f =
     (case MarshalIndent executions of
        Inl err \<Rightarrow> (Some err, f)
      | Inr data \<Rightarrow> WriteFile wr (Document data) f)"

text \<open>The \<^verbatim>\<open>nil\<close> map returned beside a read error is the empty list: no caller reads it.\<close>

definition LoadExecutions :: "disk_file \<Rightarrow> (string \<times> Execution) list \<times> string option" where
  "LoadExecutions f =
     (case f of
        NoFile \<Rightarrow> ([], None)
      | Unreadable msg \<Rightarrow> ([], Some msg)
      | Stored NoBytes \<Rightarrow> ([], None)
      | Stored (Malformed msg) \<Rightarrow> ([], Some msg)
      | Stored (Document doc) \<Rightarrow> (Unmarshal doc, None))"

section \<open>The executor (executor.go)\<close>

text \<open>
  The map \<^verbatim>\<open>executions\<close> holds pointers, and the goroutine started by \<^verbatim>\<open>Execute\<close>
  keeps the pointer to its record whatever happens to the map meanwhile. So the records
  live in a store: \<open>objects\<close> is the list of all records ever allocated, and a pointer
  is an index into it. The map is an association list from identifier to pointer,
  \<open>goroutines\<close> lists the pointers whose \<^verbatim>\<open>runCommand\<close> has been started and has not
  finished, and \<open>executionsFile\<close> is the state of \<^verbatim>\<open>executions.json\<close>.
  Each operation is one atomic step.
\<close>

record Executor =
  objects :: "Execution list"
  executions :: "(string \<times> nat) list"
  goroutines :: "nat list"
  executionsFile :: disk_file

text \<open>The map as \<^verbatim>\<open>SaveExecutions\<close> reads it: through the pointers.\<close>

definition deref :: "Executor \<Rightarrow> (string \<times> Execution) list" where
  "deref w = map (\<lambda>(k, a). (k, objects w ! a)) (executions w)"

definition NewExecutor :: "disk_file \<Rightarrow> Executor" where
  "NewExecutor f =
     (let (loaded, err) = LoadExecutions f;
          loaded = (if err \<noteq> None then [] else loaded)
      in \<lparr>objects = map snd loaded,
          executions = zip (map fst loaded) [0..<length loaded],
          goroutines = [],
          executionsFile = f\<rparr>)"

text \<open>
  \<^verbatim>\<open>Execute\<close>. The identifier \<^verbatim>\<open>uuid.New().String()\<close>, the clock reading
  \<^verbatim>\<open>time.Now()\<close> and the outcome of the file write are inputs. It returns the pointer
  to the new record and a \<^verbatim>\<open>nil\<close> error.
\<close>

definition Execute ::
  "write_outcome \<Rightarrow> string \<Rightarrow> gotime \<Rightarrow> string \<Rightarrow> string \<Rightarrow> string \<Rightarrow> string \<Rightarrow> string
     \<Rightarrow> Executor \<Rightarrow> nat \<times> string option \<times> Executor" where
  "Execute wr uuid now workdir command commandID commandName username w =
     (let execution =
            \<lparr>ID = uuid, CommandID = commandID, Name = commandName, Workdir = workdir,
             Command = command, Status = ''running'', Output = [], ExitCode = 0,
             ExecutedBy = username, StartedAt = now, EndedAt = zeroTime, Duration = []\<rparr>;
          a = length (objects w);
          w = w\<lparr>objects := objects w @ [execution]\<rparr>;
          w = w\<lparr>executions := AList.update (ID execution) a (executions w)\<rparr>;
          w = w\<lparr>executionsFile := snd (SaveExecutions wr (deref w) (executionsFile w))\<rparr>;
          w = w\<lparr>goroutines := goroutines w @ [a]\<rparr>
      in (a, None, w))"

text \<open>
  What happens to the process of \<^verbatim>\<open>sh -c command\<close>, and what \<^verbatim>\<open>cmd.Run()\<close>
  returns for it (os/exec): \<^verbatim>\<open>nil\<close> when the process exits with status 0, an
  \<^verbatim>\<open>*exec.ExitError\<close> when it exits with another status or is killed by a signal
  (\<^verbatim>\<open>ExitCode()\<close> is then -1), and another error when it could not be started.
\<close>

datatype process_fate = Exited int | Signaled | NotStarted string

definition Run :: "process_fate \<Rightarrow> run_error option" where
  "Run p =
     (case p of
        Exited c \<Rightarrow> if c = 0 then None else Some (ExitError c)
      | Signaled \<Rightarrow> Some (ExitError (- 1))
      | NotStarted msg \<Rightarrow> Some (StartError msg))"

record command_run =
  stdout :: string
  stderr :: string
  fate :: process_fate
  endTime :: gotime

text \<open>Lines 73 to 79 of \<^verbatim>\<open>runCommand\<close>: the two buffers joined.\<close>

definition combineOutput :: "string \<Rightarrow> string \<Rightarrow> string" where
  "combineOutput out err =
     (let output = out
      in if length err > 0
         then (if length output > 0 then output @ [CHR 0x0A] else output) @ err
         else output)"

text \<open>
  Lines 66 to 93 of \<^verbatim>\<open>runCommand\<close>: the record after the command has run.
  \<open>fmtD\<close> is \<^verbatim>\<open>Duration.String\<close> of the standard library.
\<close>

definition finish :: "(int \<Rightarrow> string) \<Rightarrow> command_run \<Rightarrow> Execution \<Rightarrow> Execution" where
  "finish fmtD r execution =
     (let err = Run (fate r);
          execution = execution\<lparr>EndedAt := endTime r\<rparr>;
          execution = execution\<lparr>Duration := fmtD (Sub (EndedAt execution) (StartedAt execution))\<rparr>;
          execution = execution\<lparr>Output := combineOutput (stdout r) (stderr r)\<rparr>
      in case err of
           Some (ExitError c) \<Rightarrow> execution\<lparr>Status := ''failed'', ExitCode := c\<rparr>
         | Some (StartError msg) \<Rightarrow>
             execution\<lparr>Status := ''failed'', ExitCode := 1,
                        Output := Output execution @ [CHR 0x0A] @ ''Error: '' @ msg\<rparr>
         | None \<Rightarrow> execution\<lparr>Status := ''success'', ExitCode := 0\<rparr>)"

text \<open>\<^verbatim>\<open>runCommand\<close> for the record at pointer \<open>a\<close>; at its end the goroutine is gone.\<close>

definition runCommand ::
  "(int \<Rightarrow> string) \<Rightarrow> write_outcome \<Rightarrow> command_run \<Rightarrow> nat \<Rightarrow> Executor \<Rightarrow> Executor" where
  "runCommand fmtD wr r a w =
     (let execution = finish fmtD r (objects w ! a);
          w = w\<lparr>objects := (objects w)[a := execution]\<rparr>;
          w = w\<lparr>executions := AList.update (ID execution) a (executions w)\<rparr>;
          w = w\<lparr>executionsFile := snd (SaveExecutions wr (deref w) (executionsFile w))\<rparr>
      in w\<lparr>goroutines := remove1 a (goroutines w)\<rparr>)"

definition GetExecution :: "string \<Rightarrow> Executor \<Rightarrow> nat option" where
  "GetExecution id' w = map_of (executions w) id'"

text \<open>
  The sorting loops of \<^verbatim>\<open>GetAllExecutions\<close> over the slice of pointers; \<open>h\<close> is the
  store the pointers are read in.
\<close>

definition swap :: "nat \<Rightarrow> nat \<Rightarrow> nat list \<Rightarrow> nat list" where
  "swap i j execList = execList[i := execList ! j, j := execList ! i]"

function innerLoop :: "Execution list \<Rightarrow> nat \<Rightarrow> nat \<Rightarrow> nat list \<Rightarrow> nat list" where
  "innerLoop h i j execList =
     (if j < length execList
      then innerLoop h i (j + 1)
             (if Before (StartedAt (h ! (execList ! i))) (StartedAt (h ! (execList ! j)))
              then swap i j execList else execList)
      else execList)"
  by pat_completeness auto
termination
  by (relation "measure (\<lambda>(h, i, j, execList). length execList - j)") (auto simp: swap_def)

declare innerLoop.simps [simp del]

lemma length_innerLoop: "length (innerLoop h i j execList) = length execList"
proof (induction h i j execList rule: innerLoop.induct)
  case (1 h i j execList)
  show ?case
  proof (cases "j < length execList")
    case True
    with "1.IH" show ?thesis
      by (subst innerLoop.simps) (simp add: swap_def)
  next
    case False
    then show ?thesis
      by (subst innerLoop.simps) simp
  qed
qed

function outerLoop :: "Execution list \<Rightarrow> nat \<Rightarrow> nat list \<Rightarrow> nat list" where
  "outerLoop h i execList =
     (if int i < int (length execList) - 1
      then outerLoop h (i + 1) (innerLoop h i (i + 1) execList)
      else execList)"
  by pat_completeness auto
termination
  by (relation "measure (\<lambda>(h, i, execList). length execList - i)")
     (auto simp: length_innerLoop)

declare outerLoop.simps [simp del]

text \<open>
  \<^verbatim>\<open>range\<close> visits the entries of a Go map in an order that is not specified; the
  order of the association list stands for it, and it can be any order.
\<close>

definition GetAllExecutions :: "Executor \<Rightarrow> nat list" where
  "GetAllExecutions w = outerLoop (objects w) 0 (map snd (executions w))"

text \<open>
  The slice expression \<^verbatim>\<open>all[:limit]\<close> panics unless \<open>0 \<le> limit \<le> cap(all)\<close>; the
  capacity of the slice built by \<^verbatim>\<open>GetAllExecutions\<close> is its length.
\<close>

datatype panic = SliceBoundsOutOfRange

definition sliceTo :: "nat list \<Rightarrow> int \<Rightarrow> panic + nat list" where
  "sliceTo all limit =
     (if 0 \<le> limit \<and> limit \<le> int (length all) then Inr (take (nat limit) all)
      else Inl SliceBoundsOutOfRange)"

definition GetRecentExecutions :: "int \<Rightarrow> Executor \<Rightarrow> panic + nat list" where
  "GetRecentExecutions limit w =
     (let all = GetAllExecutions w
      in if int (length all) \<le> limit then Inr all else sliceTo all limit)"

definition DeleteExecution :: "write_outcome \<Rightarrow> string \<Rightarrow> Executor \<Rightarrow> bool \<times> Executor" where
  "DeleteExecution wr id' w =
     (if map_of (executions w) id' = None then (False, w)
      else
        (let w = w\<lparr>executions := AList.delete id' (executions w)\<rparr>;
             w = w\<lparr>executionsFile := snd (SaveExecutions wr (deref w) (executionsFile w))\<rparr>
         in (True, w)))"

definition ClearExecutions :: "write_outcome \<Rightarrow> Executor \<Rightarrow> Executor" where
  "ClearExecutions wr w =
     (let w = w\<lparr>executions := []\<rparr>
      in w\<lparr>executionsFile := snd (SaveExecutions wr (deref w) (executionsFile w))\<rparr>)"

section \<open>The submit handler (handlers.go, ExecuteHandler)\<close>

text \<open>
  The request body is given decoded (\<open>None\<close> when decoding fails), and the user name
  as \<^verbatim>\<open>parseBasicAuth\<close> returns it.
\<close>

datatype http_response =
  BadRequest string | InternalServerError string | StatusOK ExecuteResponse

definition ExecuteHandler ::
  "write_outcome \<Rightarrow> string \<Rightarrow> gotime \<Rightarrow> string \<Rightarrow> ExecuteRequest option \<Rightarrow> Executor
     \<Rightarrow> http_response \<times> Executor" where
  "ExecuteHandler wr uuid now username body w =
     (case body of
        None \<Rightarrow> (BadRequest ''Invalid request body'', w)
      | Some req \<Rightarrow>
          (case ValidateCommand (reqWorkdir req) (reqCommand req) of
             Some msg \<Rightarrow> (BadRequest msg, w)
           | None \<Rightarrow>
               (case Execute wr uuid now (reqWorkdir req) (reqCommand req) [] [] username w of
                  (a, Some msg, w') \<Rightarrow> (InternalServerError msg, w')
                | (a, None, w') \<Rightarrow>
                    (StatusOK \<lparr>ExecutionID = ID (objects w' ! a),
                               respStatus = Status (objects w' ! a),
                               Message = ''Command execution started''\<rparr>, w'))))"

section \<open>Runs of the executor\<close>

text \<open>
  The operations that change the executor, as events. The goroutine of a record can
  finish only while it is running: \<^verbatim>\<open>runCommand\<close> is started once per record, by
  \<^verbatim>\<open>Execute\<close>.
\<close>

datatype event =
    EvExecute write_outcome string gotime string string string string string
  | EvRunCommand write_outcome command_run nat
  | EvDelete write_outcome string
  | EvClear write_outcome

fun step :: "(int \<Rightarrow> string) \<Rightarrow> event \<Rightarrow> Executor \<Rightarrow> Executor option" where
  "step fmtD (EvExecute wr uuid now workdir command commandID commandName username) w =
     Some (snd (snd (Execute wr uuid now workdir command commandID commandName username w)))"
| "step fmtD (EvRunCommand wr r a) w =
     (if a \<in> set (goroutines w) then Some (runCommand fmtD wr r a w) else None)"
| "step fmtD (EvDelete wr id') w = Some (snd (DeleteExecution wr id' w))"
| "step fmtD (EvClear wr) w = Some (ClearExecutions wr w)"

fun run :: "(int \<Rightarrow> string) \<Rightarrow> event list \<Rightarrow> Executor \<Rightarrow> Executor option" where
  "run fmtD [] w = Some w"
| "run fmtD (ev # evs) w =
     (case step fmtD ev w of None \<Rightarrow> None | Some w' \<Rightarrow> run fmtD evs w')"

text \<open>
  What \<^verbatim>\<open>Execute\<close> sets up and every operation keeps: each goroutine holds a pointer
  of its own to an allocated record, and that record is still running.
\<close>

definition goroutinesRunning :: "Executor \<Rightarrow> bool" where
  "goroutinesRunning w =
     (distinct (goroutines w) \<and>
      list_all (\<lambda>a. a < length (objects w) \<and> Status (objects w ! a) = ''running'')
        (goroutines w))"

text \<open>
  The records that JSON holds exactly: every string is valid UTF-8 and both times lie in
  the years 0 to 9999.
\<close>

definition jsonExact :: "Execution \<Rightarrow> bool" where
  "jsonExact e =
     (validUTF8 (ID e) \<and> validUTF8 (CommandID e) \<and> validUTF8 (Name e) \<and>
      validUTF8 (Workdir e) \<and> validUTF8 (Command e) \<and> validUTF8 (Status e) \<and>
      validUTF8 (Output e) \<and> validUTF8 (ExecutedBy e) \<and> validUTF8 (Duration e) \<and>
      jsonTime (StartedAt e) \<and> jsonTime (EndedAt e))"

section \<open>Example states\<close>

text \<open>A record as \<^verbatim>\<open>Execute\<close> creates it, and an executor that holds it while it runs.\<close>

definition exampleRecord :: Execution where
  "exampleRecord =
     \<lparr>ID = ''u1'', CommandID = [], Name = [], Workdir = ''.'',
      Command = ''exit 7'', Status = ''running'', Output = [], ExitCode = 0,
      ExecutedBy = ''bob'', StartedAt = 5, EndedAt = zeroTime, Duration = []\<rparr>"

definition exampleExecutor :: Executor where
  "exampleExecutor =
     \<lparr>objects = [exampleRecord], executions = [(''u1'', 0)], goroutines = [0],
      executionsFile = NoFile\<rparr>"

definition exampleFmt :: "int \<Rightarrow> string" where
  "exampleFmt d = ''4ns''"

text \<open>Three records started at 5, 7 and 6, none of them running any more.\<close>

definition threeExecutor :: Executor where
  "threeExecutor =
     \<lparr>objects =
        [exampleRecord\<lparr>ID := ''a'', Status := ''success'', StartedAt := 5\<rparr>,
         exampleRecord\<lparr>ID := ''b'', Status := ''success'', StartedAt := 7\<rparr>,
         exampleRecord\<lparr>ID := ''c'', Status := ''failed'', StartedAt := 6\<rparr>],
      executions = [(''a'', 0), (''b'', 1), (''c'', 2)], goroutines = [],
      executionsFile = NoFile\<rparr>"

section \<open>The completion routine\<close>

lemma objects_runCommand:
  "objects (runCommand fmtD wr r a w) = (objects w)[a := finish fmtD r (objects w ! a)]"
  by (simp add: runCommand_def Let_def)

lemma ID_finish: "ID (finish fmtD r e) = ID e"
  by (simp add: finish_def Let_def split: option.splits run_error.splits)

lemma executions_runCommand:
  "executions (runCommand fmtD wr r a w) =
     AList.update (ID (objects w ! a)) a (executions w)"
  by (simp add: runCommand_def Let_def ID_finish)

lemma goroutines_runCommand:
  "goroutines (runCommand fmtD wr r a w) = remove1 a (goroutines w)"
  by (simp add: runCommand_def Let_def)

text \<open>
  C1. When \<^verbatim>\<open>runCommand\<close> finishes for the record at a valid pointer, the record is
  the one the map holds under its identifier, and its terminal fields are: status
  \<open>success\<close> and exit code 0 when the process exits with code 0; status \<open>failed\<close> and
  the process's exit code when it exits with another code (-1 when a signal ended it);
  status \<open>failed\<close>, exit code 1 and the output followed by a line \<open>Error: ...\<close> with the
  error's message when the process could not be started.
\<close>

theorem runCommand_terminal_fields:
  assumes "a < length (objects w)"
  shows "GetExecution (ID (objects w ! a)) (runCommand fmtD wr r a w) = Some a \<and>
         (case fate r of
            Exited c \<Rightarrow>
              if c = 0
              then Status (objects (runCommand fmtD wr r a w) ! a) = ''success'' \<and>
                   ExitCode (objects (runCommand fmtD wr r a w) ! a) = 0
              else Status (objects (runCommand fmtD wr r a w) ! a) = ''failed'' \<and>
                   ExitCode (objects (runCommand fmtD wr r a w) ! a) = c
          | Signaled \<Rightarrow>
              Status (objects (runCommand fmtD wr r a w) ! a) = ''failed'' \<and>
              ExitCode (objects (runCommand fmtD wr r a w) ! a) = - 1
          | NotStarted msg \<Rightarrow>
              Status (objects (runCommand fmtD wr r a w) ! a) = ''failed'' \<and>
              ExitCode (objects (runCommand fmtD wr r a w) ! a) = 1 \<and>
              Output (objects (runCommand fmtD wr r a w) ! a) =
                combineOutput (stdout r) (stderr r) @ [CHR 0x0A] @ ''Error: '' @ msg)"
proof -
  have obj: "objects (runCommand fmtD wr r a w) ! a = finish fmtD r (objects w ! a)"
    using assms by (simp add: objects_runCommand)
  have get: "GetExecution (ID (objects w ! a)) (runCommand fmtD wr r a w) = Some a"
    by (simp add: GetExecution_def executions_runCommand update_Some_unfold)
  show ?thesis
    unfolding obj using get
    by (simp add: finish_def Run_def Let_def split: process_fate.splits)
qed

text \<open>The command \<^verbatim>\<open>exit 7\<close>: the record ends as failed with exit code 7.\<close>

theorem runCommand_terminal_fields_witness:
  "0 < length (objects exampleExecutor) \<and>
   GetExecution ''u1''
     (runCommand exampleFmt WriteOk
        \<lparr>stdout = [], stderr = [], fate = Exited 7, endTime = 9\<rparr> 0 exampleExecutor) = Some 0 \<and>
   Status (objects
     (runCommand exampleFmt WriteOk
        \<lparr>stdout = [], stderr = [], fate = Exited 7, endTime = 9\<rparr> 0 exampleExecutor) ! 0)
     = ''failed'' \<and>
   ExitCode (objects
     (runCommand exampleFmt WriteOk
        \<lparr>stdout = [], stderr = [], fate = Exited 7, endTime = 9\<rparr> 0 exampleExecutor) ! 0)
     = 7"
proof -
  have h: "0 < length (objects exampleExecutor)"
    by (simp add: exampleExecutor_def)
  have i: "ID (objects exampleExecutor ! 0) = ''u1''"
    by (simp add: exampleExecutor_def exampleRecord_def)
  show ?thesis
    using h i runCommand_terminal_fields [OF h, of exampleFmt WriteOk
        "\<lparr>stdout = [], stderr = [], fate = Exited 7, endTime = 9\<rparr>"]
    by simp
qed

text \<open>
  C5 (as the code has it). The output of a completed record is the standard output,
  then, when the standard error is not empty, the standard error, with one newline
  between the two only when the standard output is not empty either; when the process
  could not be started, the line \<open>Error: ...\<close> follows.
\<close>

theorem runCommand_output:
  assumes "a < length (objects w)"
  shows "Output (objects (runCommand fmtD wr r a w) ! a) =
           (if stderr r = [] then stdout r
            else if stdout r = [] then stderr r
            else stdout r @ [CHR 0x0A] @ stderr r)
           @ (case fate r of
                NotStarted msg \<Rightarrow> [CHR 0x0A] @ ''Error: '' @ msg
              | _ \<Rightarrow> [])"
proof -
  have "objects (runCommand fmtD wr r a w) ! a = finish fmtD r (objects w ! a)"
    using assms by (simp add: objects_runCommand)
  then show ?thesis
    by (simp add: finish_def Run_def combineOutput_def Let_def split: process_fate.splits)
qed

theorem runCommand_output_witness:
  "0 < length (objects exampleExecutor) \<and>
   Output (objects
     (runCommand exampleFmt WriteOk
        \<lparr>stdout = ''hello'', stderr = ''oops'', fate = Exited 3, endTime = 9\<rparr> 0
        exampleExecutor) ! 0)
     = ''hello'' @ [CHR 0x0A] @ ''oops''"
proof -
  have h: "0 < length (objects exampleExecutor)"
    by (simp add: exampleExecutor_def)
  show ?thesis
    using h runCommand_output [OF h, of exampleFmt WriteOk
        "\<lparr>stdout = ''hello'', stderr = ''oops'', fate = Exited 3, endTime = 9\<rparr>"]
    by simp
qed

text \<open>
  With an empty standard output and the standard error \<open>e\<close>, the output is \<open>e\<close>: no
  newline stands before it.
\<close>

theorem runCommand_output_counterexample:
  "Output (objects
     (runCommand exampleFmt WriteOk
        \<lparr>stdout = [], stderr = ''e'', fate = Exited 0, endTime = 9\<rparr> 0 exampleExecutor) ! 0)
     = ''e'' \<and>
   Output (objects
     (runCommand exampleFmt WriteOk
        \<lparr>stdout = [], stderr = ''e'', fate = Exited 0, endTime = 9\<rparr> 0 exampleExecutor) ! 0)
     \<noteq> [] @ [CHR 0x0A] @ ''e''"
  by (simp add: objects_runCommand exampleExecutor_def finish_def Run_def
        combineOutput_def Let_def)

section \<open>Listing\<close>

lemma length_swap: "length (swap i j xs) = length xs"
  by (simp add: swap_def)

lemma mset_swap_list: "i < length xs \<Longrightarrow> j < length xs \<Longrightarrow> mset (swap i j xs) = mset xs"
  by (simp add: swap_def mset_swap)

lemma mset_innerLoop: "i < j \<Longrightarrow> mset (innerLoop h i j xs) = mset xs"
proof (induction h i j xs rule: innerLoop.induct)
  case (1 h i j xs)
  show ?case
  proof (cases "j < length xs")
    case True
    let ?xs = "if Before (StartedAt (h ! (xs ! i))) (StartedAt (h ! (xs ! j)))
               then swap i j xs else xs"
    have "mset ?xs = mset xs"
      using True "1.prems" by (simp add: mset_swap_list)
    moreover have "mset (innerLoop h i (j + 1) ?xs) = mset ?xs"
      using "1.IH" [OF True] "1.prems" by simp
    ultimately show ?thesis
      using True by (subst innerLoop.simps) simp
  next
    case False
    then show ?thesis by (subst innerLoop.simps) simp
  qed
qed

lemma mset_outerLoop: "mset (outerLoop h i xs) = mset xs"
proof (induction h i xs rule: outerLoop.induct)
  case (1 h i xs)
  show ?case
  proof (cases "int i < int (length xs) - 1")
    case True
    with "1.IH" show ?thesis
      by (subst outerLoop.simps) (simp add: mset_innerLoop)
  next
    case False
    then show ?thesis by (subst outerLoop.simps) simp
  qed
qed

text \<open>The record at position \<open>i\<close> is at least as new as those the inner loop has passed.\<close>

lemma innerLoop_newest:
  "i < j \<Longrightarrow>
   \<forall>k. i < k \<and> k < j \<longrightarrow> StartedAt (h ! (xs ! k)) \<le> StartedAt (h ! (xs ! i)) \<Longrightarrow>
   i < k \<Longrightarrow> k < length xs \<Longrightarrow>
   StartedAt (h ! (innerLoop h i j xs ! k)) \<le> StartedAt (h ! (innerLoop h i j xs ! i))"
proof (induction h i j xs rule: innerLoop.induct)
  case (1 h i j xs)
  show ?case
  proof (cases "j < length xs")
    case True
    let ?xs = "if Before (StartedAt (h ! (xs ! i))) (StartedAt (h ! (xs ! j)))
               then swap i j xs else xs"
    have len: "length ?xs = length xs" by (simp add: length_swap)
    have inv: "\<forall>k. i < k \<and> k < j + 1 \<longrightarrow> StartedAt (h ! (?xs ! k)) \<le> StartedAt (h ! (?xs ! i))"
    proof (intro allI impI)
      fix k assume k: "i < k \<and> k < j + 1"
      show "StartedAt (h ! (?xs ! k)) \<le> StartedAt (h ! (?xs ! i))"
      proof (cases "k = j")
        case True
        then show ?thesis
          using \<open>j < length xs\<close> "1.prems"(1) by (auto simp: swap_def Before_def)
      next
        case False
        with k have "i < k \<and> k < j" by simp
        with "1.prems"(2) have "StartedAt (h ! (xs ! k)) \<le> StartedAt (h ! (xs ! i))" by blast
        then show ?thesis
          using \<open>j < length xs\<close> "1.prems"(1) k False by (auto simp: swap_def Before_def)
      qed
    qed
    have "StartedAt (h ! (innerLoop h i (j + 1) ?xs ! k)) \<le> StartedAt (h ! (innerLoop h i (j + 1) ?xs ! i))"
      using "1.IH" [OF True _ inv] "1.prems" len by simp
    then show ?thesis
      using True by (subst (1 2) innerLoop.simps) simp
  next
    case False
    with "1.prems" show ?thesis
      by (subst (1 2) innerLoop.simps) simp
  qed
qed

text \<open>The positions before \<open>i\<close> stay as new as everything after them.\<close>

lemma innerLoop_prefix:
  "i < j \<Longrightarrow>
   \<forall>p q. p < i \<and> p < q \<and> q < length xs \<longrightarrow> StartedAt (h ! (xs ! q)) \<le> StartedAt (h ! (xs ! p)) \<Longrightarrow>
   p < i \<Longrightarrow> p < q \<Longrightarrow> q < length xs \<Longrightarrow>
   StartedAt (h ! (innerLoop h i j xs ! q)) \<le> StartedAt (h ! (innerLoop h i j xs ! p))"
proof (induction h i j xs rule: innerLoop.induct)
  case (1 h i j xs)
  show ?case
  proof (cases "j < length xs")
    case True
    let ?xs = "if Before (StartedAt (h ! (xs ! i))) (StartedAt (h ! (xs ! j)))
               then swap i j xs else xs"
    have len: "length ?xs = length xs" by (simp add: length_swap)
    have inv: "\<forall>p q. p < i \<and> p < q \<and> q < length ?xs \<longrightarrow>
                 StartedAt (h ! (?xs ! q)) \<le> StartedAt (h ! (?xs ! p))"
    proof (intro allI impI)
      fix p q assume pq: "p < i \<and> p < q \<and> q < length ?xs"
      then have a: "p < i" "p < q" "q < length xs" using len by simp_all
      have b: "p < j" "i < length xs" using a "1.prems"(1) True by simp_all
      have c: "StartedAt (h ! (xs ! q)) \<le> StartedAt (h ! (xs ! p))"
              "StartedAt (h ! (xs ! i)) \<le> StartedAt (h ! (xs ! p))"
              "StartedAt (h ! (xs ! j)) \<le> StartedAt (h ! (xs ! p))"
        using "1.prems"(2) a b True by blast+
      show "StartedAt (h ! (?xs ! q)) \<le> StartedAt (h ! (?xs ! p))"
        using a b c True by (auto simp: swap_def nth_list_update)
    qed
    have "StartedAt (h ! (innerLoop h i (j + 1) ?xs ! q)) \<le> StartedAt (h ! (innerLoop h i (j + 1) ?xs ! p))"
      using "1.IH" [OF True _ inv] "1.prems" len by simp
    then show ?thesis
      using True by (subst (1 2) innerLoop.simps) simp
  next
    case False
    with "1.prems" show ?thesis
      by (subst (1 2) innerLoop.simps) simp
  qed
qed

lemma outerLoop_sorted:
  "\<forall>p q. p < i \<and> p < q \<and> q < length xs \<longrightarrow> StartedAt (h ! (xs ! q)) \<le> StartedAt (h ! (xs ! p)) \<Longrightarrow>
   p < q \<Longrightarrow> q < length xs \<Longrightarrow>
   StartedAt (h ! (outerLoop h i xs ! q)) \<le> StartedAt (h ! (outerLoop h i xs ! p))"
proof (induction h i xs arbitrary: p q rule: outerLoop.induct)
  case (1 h i xs)
  show ?case
  proof (cases "int i < int (length xs) - 1")
    case True
    let ?xs = "innerLoop h i (i + 1) xs"
    have len: "length ?xs = length xs" by (simp add: length_innerLoop)
    have inv: "\<forall>p q. p < i + 1 \<and> p < q \<and> q < length ?xs \<longrightarrow>
                 StartedAt (h ! (?xs ! q)) \<le> StartedAt (h ! (?xs ! p))"
    proof (intro allI impI)
      fix p q assume pq: "p < i + 1 \<and> p < q \<and> q < length ?xs"
      show "StartedAt (h ! (?xs ! q)) \<le> StartedAt (h ! (?xs ! p))"
      proof (cases "p = i")
        case True
        have "StartedAt (h ! (?xs ! q)) \<le> StartedAt (h ! (?xs ! i))"
          by (rule innerLoop_newest) (use pq True len in auto)
        then show ?thesis using True by simp
      next
        case False
        with pq have "p < i" by simp
        then show ?thesis
          using innerLoop_prefix [where i = i and j = "i + 1" and xs = xs and h = h
              and p = p and q = q, OF _ "1.prems"(1)] pq len
          by simp
      qed
    qed
    have "StartedAt (h ! (outerLoop h (i + 1) ?xs ! q)) \<le> StartedAt (h ! (outerLoop h (i + 1) ?xs ! p))"
      using "1.IH" [OF True inv] "1.prems" len by simp
    then show ?thesis
      using True by (subst (1 2) outerLoop.simps) simp
  next
    case False
    then have "p < i" using "1.prems" by simp
    with "1.prems" have "StartedAt (h ! (xs ! q)) \<le> StartedAt (h ! (xs ! p))" by blast
    then show ?thesis
      using False by (subst (1 2) outerLoop.simps) simp
  qed
qed

lemma length_outerLoop: "length (outerLoop h i xs) = length xs"
  using mset_outerLoop [of h i xs] by (metis size_mset)


text \<open>
  C6 (as the code has it). \<^verbatim>\<open>GetAllExecutions\<close> returns the stored pointers, each
  once, with the start times of their records in descending order; for every limit that
  is not negative, \<^verbatim>\<open>GetRecentExecutions\<close> returns the first \<open>limit\<close> of them, which
  are all of them when there are no more than \<open>limit\<close>.
\<close>

theorem GetAllExecutions_sorted_GetRecentExecutions_prefix:
  "mset (GetAllExecutions w) = mset (map snd (executions w)) \<and>
   sorted_wrt (\<lambda>a b. StartedAt (objects w ! b) \<le> StartedAt (objects w ! a))
     (GetAllExecutions w) \<and>
   (0 \<le> limit \<longrightarrow>
      GetRecentExecutions limit w = Inr (take (nat limit) (GetAllExecutions w)))"
proof (intro conjI impI)
  show "mset (GetAllExecutions w) = mset (map snd (executions w))"
    by (simp add: GetAllExecutions_def mset_outerLoop)
next
  show "sorted_wrt (\<lambda>a b. StartedAt (objects w ! b) \<le> StartedAt (objects w ! a))
          (GetAllExecutions w)"
    unfolding sorted_wrt_iff_nth_less GetAllExecutions_def
  proof (intro allI impI)
    fix p q
    assume "p < q" and "q < length (outerLoop (objects w) 0 (map snd (executions w)))"
    then show "StartedAt (objects w ! (outerLoop (objects w) 0 (map snd (executions w)) ! q))
                 \<le> StartedAt (objects w ! (outerLoop (objects w) 0 (map snd (executions w)) ! p))"
      by (intro outerLoop_sorted) (simp_all add: length_outerLoop)
  qed
next
  assume "0 \<le> limit"
  then show "GetRecentExecutions limit w = Inr (take (nat limit) (GetAllExecutions w))"
    by (simp add: GetRecentExecutions_def sliceTo_def Let_def)
qed

lemma GetAllExecutions_threeExecutor: "GetAllExecutions threeExecutor = [1, 2, 0]"
  by code_simp

text \<open>Started at 5, 7 and 6: listed as 7, 6, 5, and the two most recent are 7 and 6.\<close>

theorem GetAllExecutions_sorted_GetRecentExecutions_prefix_witness:
  "(0::int) \<le> 2 \<and> GetAllExecutions threeExecutor = [1, 2, 0] \<and>
   GetRecentExecutions 2 threeExecutor = Inr [1, 2]"
  using GetAllExecutions_sorted_GetRecentExecutions_prefix [of threeExecutor 2]
    GetAllExecutions_threeExecutor
  by simp

text \<open>With the limit -1 the operation returns no list at all.\<close>

theorem GetRecentExecutions_counterexample:
  "\<not> (\<exists>xs. GetRecentExecutions (- 1) threeExecutor = Inr xs)"
  by (simp add: GetRecentExecutions_def sliceTo_def Let_def)

text \<open>
  C10. \<^verbatim>\<open>GetRecentExecutions\<close> returns a list exactly when its limit is not negative,
  and panics on the slice bounds exactly when it is negative, whatever the store holds
  (an empty store included).
\<close>

theorem GetRecentExecutions_panics_iff_negative:
  "((\<exists>xs. GetRecentExecutions limit w = Inr xs) = (0 \<le> limit)) \<and>
   ((GetRecentExecutions limit w = Inl SliceBoundsOutOfRange) = (limit < 0))"
  by (auto simp: GetRecentExecutions_def sliceTo_def Let_def)

theorem GetRecentExecutions_panics_iff_negative_witness:
  "GetRecentExecutions (- 1) (NewExecutor NoFile) = Inl SliceBoundsOutOfRange \<and>
   (\<exists>xs. GetRecentExecutions 0 (NewExecutor NoFile) = Inr xs)"
  using GetRecentExecutions_panics_iff_negative [of "- 1" "NewExecutor NoFile"]
    GetRecentExecutions_panics_iff_negative [of 0 "NewExecutor NoFile"]
  by simp

section \<open>Submitting\<close>

text \<open>
  C4. A submission whose command or working directory is empty after
  \<^verbatim>\<open>strings.TrimSpace\<close> is answered by \<^verbatim>\<open>ExecuteHandler\<close> with a validation error
  (status 400 with the message of \<^verbatim>\<open>ValidateCommand\<close>), and the executor, its store
  and the file are as before: no record is created or stored. When both are not empty
  after trimming, \<^verbatim>\<open>ValidateCommand\<close> returns \<^verbatim>\<open>nil\<close> and the handler goes on to
  \<^verbatim>\<open>Execute\<close>.
\<close>

theorem ExecuteHandler_validation:
  "(TrimSpace (reqCommand req) = [] \<or> TrimSpace (reqWorkdir req) = [] \<longrightarrow>
      (\<exists>msg. ExecuteHandler wr uuid now username (Some req) w = (BadRequest msg, w))) \<and>
   (TrimSpace (reqCommand req) \<noteq> [] \<and> TrimSpace (reqWorkdir req) \<noteq> [] \<longrightarrow>
      ValidateCommand (reqWorkdir req) (reqCommand req) = None \<and>
      (\<exists>resp. ExecuteHandler wr uuid now username (Some req) w =
         (StatusOK resp,
          snd (snd (Execute wr uuid now (reqWorkdir req) (reqCommand req) [] [] username w)))))"
  by (auto simp: ExecuteHandler_def ValidateCommand_def Execute_def Let_def)

lemma TrimSpace_examples:
  "TrimSpace '' '' = []" "TrimSpace [] = []" "TrimSpace ''ls'' = ''ls''" "TrimSpace ''.'' = ''.''"
  by code_simp+

theorem ExecuteHandler_validation_witness:
  "ExecuteHandler WriteOk ''u2'' 8 ''bob'' (Some \<lparr>reqWorkdir = '' '', reqCommand = '' ''\<rparr>)
     exampleExecutor = (BadRequest ''command cannot be empty'', exampleExecutor) \<and>
   ExecuteHandler WriteOk ''u2'' 8 ''bob'' (Some \<lparr>reqWorkdir = [], reqCommand = ''ls''\<rparr>)
     exampleExecutor = (BadRequest ''workdir cannot be empty'', exampleExecutor) \<and>
   ValidateCommand ''.'' ''ls'' = None \<and>
   (\<exists>resp. ExecuteHandler WriteOk ''u2'' 8 ''bob'' (Some \<lparr>reqWorkdir = ''.'', reqCommand = ''ls''\<rparr>)
      exampleExecutor =
        (StatusOK resp, snd (snd (Execute WriteOk ''u2'' 8 ''.'' ''ls'' [] [] ''bob'' exampleExecutor))))"
  using ExecuteHandler_validation [of "\<lparr>reqWorkdir = '' '', reqCommand = '' ''\<rparr>"
      WriteOk "''u2''" 8 "''bob''" exampleExecutor]
    ExecuteHandler_validation [of "\<lparr>reqWorkdir = [], reqCommand = ''ls''\<rparr>"
      WriteOk "''u2''" 8 "''bob''" exampleExecutor]
    ExecuteHandler_validation [of "\<lparr>reqWorkdir = ''.'', reqCommand = ''ls''\<rparr>"
      WriteOk "''u2''" 8 "''bob''" exampleExecutor]
    TrimSpace_examples
  by (simp add: ExecuteHandler_def ValidateCommand_def)

lemma marshalMembers_member:
  "marshalMembers m = Inr doc \<Longrightarrow> (k, e) \<in> set m \<Longrightarrow>
   \<exists>j. marshalExecution e = Inr j \<and> (toValidUTF8 k, j) \<in> set doc"
proof (induction m arbitrary: doc)
  case Nil
  then show ?case by simp
next
  case (Cons x m)
  obtain k' e' where x: "x = (k', e')" by (cases x)
  from Cons.prems(1) x obtain j' js where
    j': "marshalExecution e' = Inr j'" and js: "marshalMembers m = Inr js"
    and doc: "doc = (toValidUTF8 k', j') # js"
    by (auto split: sum.splits)
  show ?case
  proof (cases "(k, e) = (k', e')")
    case True
    with j' doc show ?thesis by auto
  next
    case False
    with Cons.prems(2) x have "(k, e) \<in> set m" by auto
    from Cons.IH [OF js this] doc show ?thesis by auto
  qed
qed

lemma SaveExecutions_succeeds:
  "fst (SaveExecutions wr m f) = None \<Longrightarrow>
   \<exists>doc. MarshalIndent m = Inr doc \<and> snd (SaveExecutions wr m f) = Stored (Document doc)"
  by (auto simp: SaveExecutions_def WriteFile_def split: sum.splits write_outcome.splits)

text \<open>
  C3 (as the code has it). For every submission, valid ones included, \<^verbatim>\<open>Execute\<close>
  returns with no error a pointer to a new record (the store only grows by it) whose
  identifier is the generated one, whose status is \<open>running\<close>, whose working directory
  and command are the submitted ones and whose start time is the clock reading; the map
  holds the record under its identifier, its goroutine has been started and has not
  finished, and \<^verbatim>\<open>SaveExecutions\<close> has been called on the map with the record in it:
  when that call reports no error, the file holds a document with the record's member.
\<close>

theorem Execute_returns_running_record:
  "case Execute wr uuid now workdir command commandID commandName username w of
     (a, err, w') \<Rightarrow>
       err = None \<and> a = length (objects w) \<and> length (objects w') = Suc a \<and>
       take a (objects w') = objects w \<and>
       ID (objects w' ! a) = uuid \<and> Status (objects w' ! a) = ''running'' \<and>
       Workdir (objects w' ! a) = workdir \<and> Command (objects w' ! a) = command \<and>
       StartedAt (objects w' ! a) = now \<and>
       GetExecution uuid w' = Some a \<and>
       a \<in> set (goroutines w') \<and>
       executionsFile w' = snd (SaveExecutions wr (deref w') (executionsFile w)) \<and>
       (fst (SaveExecutions wr (deref w') (executionsFile w)) = None \<longrightarrow>
          (\<exists>doc j. executionsFile w' = Stored (Document doc) \<and>
                   marshalExecution (objects w' ! a) = Inr j \<and>
                   (toValidUTF8 uuid, j) \<in> set doc))"
proof -
  define e where "e = \<lparr>ID = uuid, CommandID = commandID, Name = commandName, Workdir = workdir,
             Command = command, Status = ''running'', Output = [], ExitCode = 0,
             ExecutedBy = username, StartedAt = now, EndedAt = zeroTime, Duration = []\<rparr>"
  define a where "a = length (objects w)"
  define w1 where "w1 = w\<lparr>objects := objects w @ [e], executions := AList.update uuid a (executions w)\<rparr>"
  define w' where "w' = w1\<lparr>executionsFile := snd (SaveExecutions wr (deref w1) (executionsFile w)),
                            goroutines := goroutines w @ [a]\<rparr>"
  have ex: "Execute wr uuid now workdir command commandID commandName username w = (a, None, w')"
    by (simp add: Execute_def Let_def e_def a_def w1_def w'_def deref_def)
  have d: "deref w' = deref w1" by (simp add: deref_def w'_def)
  have obj: "objects w' = objects w @ [e]" by (simp add: w'_def w1_def)
  have nth: "objects w' ! a = e" by (simp add: obj a_def)
  have get: "GetExecution uuid w' = Some a"
    by (simp add: GetExecution_def w'_def w1_def update_Some_unfold)
  have mem: "(uuid, e) \<in> set (deref w')"
  proof -
    from get have "(uuid, a) \<in> set (executions w')"
      by (simp add: GetExecution_def map_of_SomeD)
    then have "(uuid, objects w' ! a) \<in> set (deref w')"
      unfolding deref_def by force
    then show ?thesis by (simp add: nth)
  qed
  have saved: "fst (SaveExecutions wr (deref w') (executionsFile w)) = None \<longrightarrow>
          (\<exists>doc j. executionsFile w' = Stored (Document doc) \<and>
                   marshalExecution (objects w' ! a) = Inr j \<and>
                   (toValidUTF8 uuid, j) \<in> set doc)"
  proof
    assume "fst (SaveExecutions wr (deref w') (executionsFile w)) = None"
    from SaveExecutions_succeeds [OF this] obtain doc where
      doc: "MarshalIndent (deref w') = Inr doc"
      and st: "snd (SaveExecutions wr (deref w') (executionsFile w)) = Stored (Document doc)"
      by blast
    from mem have "(uuid, e) \<in> set (sort_key fst (deref w'))" by simp
    from marshalMembers_member [OF doc [unfolded MarshalIndent_def] this]
    obtain j where "marshalExecution e = Inr j" "(toValidUTF8 uuid, j) \<in> set doc" by blast
    moreover have "executionsFile w' = Stored (Document doc)"
      using st d by (simp add: w'_def)
    ultimately show "\<exists>doc j. executionsFile w' = Stored (Document doc) \<and>
                   marshalExecution (objects w' ! a) = Inr j \<and>
                   (toValidUTF8 uuid, j) \<in> set doc"
      using nth by auto
  qed
  have written: "executionsFile w' = snd (SaveExecutions wr (deref w') (executionsFile w))"
    using d by (simp add: w'_def)
  show ?thesis
    unfolding ex using saved get written nth obj
    by (simp add: a_def e_def w'_def)
qed


lemma Execute_example_saved:
  "fst (SaveExecutions WriteOk
          (deref (snd (snd (Execute WriteOk ''u2'' 8 ''.'' ''sleep 5'' [] [] ''bob'' exampleExecutor))))
          (executionsFile exampleExecutor)) = None"
  by code_simp

theorem Execute_returns_running_record_witness:
  "case Execute WriteOk ''u2'' 8 ''.'' ''sleep 5'' [] [] ''bob'' exampleExecutor of
     (a, err, w') \<Rightarrow>
       fst (SaveExecutions WriteOk (deref w') (executionsFile exampleExecutor)) = None \<and>
       err = None \<and> a = 1 \<and>
       Status (objects w' ! a) = ''running'' \<and>
       GetExecution ''u2'' w' = Some a \<and>
       a \<in> set (goroutines w') \<and>
       (\<exists>doc j. executionsFile w' = Stored (Document doc) \<and>
                marshalExecution (objects w' ! a) = Inr j \<and>
                (toValidUTF8 ''u2'', j) \<in> set doc)"
proof -
  obtain a err w' where
    ex: "Execute WriteOk ''u2'' 8 ''.'' ''sleep 5'' [] [] ''bob'' exampleExecutor = (a, err, w')"
    using prod_cases3 by blast
  have s: "fst (SaveExecutions WriteOk (deref w') (executionsFile exampleExecutor)) = None"
    using Execute_example_saved by (simp add: ex)
  have l: "length (objects exampleExecutor) = 1"
    by (simp add: exampleExecutor_def)
  have "err = None \<and> a = length (objects exampleExecutor) \<and>
        Status (objects w' ! a) = ''running'' \<and>
        GetExecution ''u2'' w' = Some a \<and>
        a \<in> set (goroutines w') \<and>
        (\<exists>doc j. executionsFile w' = Stored (Document doc) \<and>
                 marshalExecution (objects w' ! a) = Inr j \<and>
                 (toValidUTF8 ''u2'', j) \<in> set doc)"
    using Execute_returns_running_record [where wr = WriteOk and uuid = "''u2''" and now = 8
        and workdir = "''.''" and command = "''sleep 5''" and commandID = "[]"
        and commandName = "[]" and username = "''bob''" and w = exampleExecutor,
        unfolded ex prod.case] s
    by blast
  then show ?thesis
    unfolding ex using s l by (auto simp: between_def)
qed

text \<open>
  The file write fails during \<^verbatim>\<open>Execute\<close>: it returns the record with no error, the
  map holds the record, and there is still no file to load it from.
\<close>

theorem Execute_counterexample:
  "case Execute (WriteFails ''disk full'' NoFile) ''u1'' 5 ''.'' ''sleep 5'' [] [] ''bob''
          (NewExecutor NoFile) of
     (a, err, w') \<Rightarrow>
       err = None \<and> GetExecution ''u1'' w' = Some a \<and>
       Status (objects w' ! a) = ''running'' \<and>
       executionsFile w' = NoFile \<and> LoadExecutions (executionsFile w') = ([], None)"
  by code_simp

section \<open>Failed saves\<close>

lemma SaveExecutions_WriteFails: "fst (SaveExecutions (WriteFails msg f') m f) \<noteq> None"
  by (simp add: SaveExecutions_def WriteFile_def split: sum.splits)

text \<open>
  C9 (as the code has it). When the file write fails, \<^verbatim>\<open>SaveExecutions\<close> returns
  the error to the operation that called it, and the map in memory keeps the mutation:
  a deleted identifier is gone and \<^verbatim>\<open>DeleteExecution\<close> returns true, the cleared map
  is empty, and the completed record is in the map with its final fields; the map is
  the one the operation leaves when the write succeeds.
\<close>

theorem failed_save_keeps_mutation:
  "fst (SaveExecutions (WriteFails msg f') m f) \<noteq> None \<and>
   (map_of (executions w) id' \<noteq> None \<longrightarrow>
      fst (DeleteExecution (WriteFails msg f') id' w) = True \<and>
      GetExecution id' (snd (DeleteExecution (WriteFails msg f') id' w)) = None \<and>
      executions (snd (DeleteExecution (WriteFails msg f') id' w))
        = executions (snd (DeleteExecution WriteOk id' w))) \<and>
   executions (ClearExecutions (WriteFails msg f') w) = [] \<and>
   (a < length (objects w) \<longrightarrow>
      GetExecution (ID (objects w ! a)) (runCommand fmtD (WriteFails msg f') r a w) = Some a \<and>
      objects (runCommand fmtD (WriteFails msg f') r a w) ! a = finish fmtD r (objects w ! a) \<and>
      executions (runCommand fmtD (WriteFails msg f') r a w)
        = executions (runCommand fmtD WriteOk r a w))"
  by (simp add: SaveExecutions_WriteFails DeleteExecution_def ClearExecutions_def Let_def
        GetExecution_def delete_conv objects_runCommand executions_runCommand
        update_Some_unfold)

theorem failed_save_keeps_mutation_witness:
  "map_of (executions exampleExecutor) ''u1'' \<noteq> None \<and>
   0 < length (objects exampleExecutor) \<and>
   fst (SaveExecutions (WriteFails ''disk full'' NoFile) [] NoFile) \<noteq> None \<and>
   fst (DeleteExecution (WriteFails ''disk full'' NoFile) ''u1'' exampleExecutor) = True \<and>
   GetExecution ''u1'' (snd (DeleteExecution (WriteFails ''disk full'' NoFile) ''u1'' exampleExecutor)) = None \<and>
   GetExecution ''u1''
     (runCommand exampleFmt (WriteFails ''disk full'' NoFile)
        \<lparr>stdout = [], stderr = [], fate = Exited 0, endTime = 9\<rparr> 0 exampleExecutor) = Some 0"
proof -
  have h: "map_of (executions exampleExecutor) ''u1'' \<noteq> None"
    "0 < length (objects exampleExecutor)" "ID (objects exampleExecutor ! 0) = ''u1''"
    by (simp_all add: exampleExecutor_def exampleRecord_def)
  show ?thesis
    using h failed_save_keeps_mutation [of "''disk full''" NoFile "[]" NoFile exampleExecutor
        "''u1''" 0 exampleFmt "\<lparr>stdout = [], stderr = [], fate = Exited 0, endTime = 9\<rparr>"]
    by simp
qed

text \<open>
  The save fails inside \<^verbatim>\<open>DeleteExecution\<close>, and its caller receives what it
  receives when the save succeeds: the failure does not reach it.
\<close>

theorem DeleteExecution_counterexample:
  "fst (SaveExecutions (WriteFails ''disk full'' NoFile)
          (deref (snd (DeleteExecution (WriteFails ''disk full'' NoFile) ''u1'' exampleExecutor)))
          (executionsFile exampleExecutor)) = Some ''disk full'' \<and>
   fst (DeleteExecution (WriteFails ''disk full'' NoFile) ''u1'' exampleExecutor)
     = fst (DeleteExecution WriteOk ''u1'' exampleExecutor)"
  by code_simp

section \<open>Clearing\<close>

lemma GetAllExecutions_empty: "executions w = [] \<Longrightarrow> GetAllExecutions w = []"
  by (simp add: GetAllExecutions_def outerLoop.simps)

lemma ClearExecutions_empties:
  "GetAllExecutions (ClearExecutions wr w) = [] \<and>
   (fst (SaveExecutions wr [] (executionsFile w)) = None \<longrightarrow>
      executionsFile (ClearExecutions wr w) = Stored (Document []))"
  by (auto simp: ClearExecutions_def Let_def GetAllExecutions_empty deref_def SaveExecutions_def
        MarshalIndent_def WriteFile_def split: write_outcome.splits)

text \<open>
  C7. A command is submitted and the history is cleared while it runs: the list is
  empty and the file holds an empty document. Then the command finishes, and
  \<^verbatim>\<open>runCommand\<close> stores its record again: the record from before the clear is listed,
  found by its identifier, and back in the file.
\<close>

theorem cleared_record_returns:
  "(case run exampleFmt
           [EvExecute WriteOk ''u1'' 5 ''.'' ''sleep 5'' [] [] ''bob'', EvClear WriteOk]
           (NewExecutor NoFile) of
      None \<Rightarrow> False
    | Some w \<Rightarrow> GetAllExecutions w = [] \<and> executionsFile w = Stored (Document [])) \<and>
   (case run exampleFmt
           [EvExecute WriteOk ''u1'' 5 ''.'' ''sleep 5'' [] [] ''bob'', EvClear WriteOk,
            EvRunCommand WriteOk \<lparr>stdout = [], stderr = [], fate = Exited 0, endTime = 9\<rparr> 0]
           (NewExecutor NoFile) of
      None \<Rightarrow> False
    | Some w \<Rightarrow>
        GetAllExecutions w = [0] \<and> ID (objects w ! 0) = ''u1'' \<and>
        GetExecution ''u1'' w = Some 0 \<and>
        map fst (fst (LoadExecutions (executionsFile w))) = [''u1''])"
  by code_simp

section \<open>The status of a record\<close>

lemma goroutinesRunning_NewExecutor: "goroutinesRunning (NewExecutor f)"
  by (simp add: goroutinesRunning_def NewExecutor_def Let_def case_prod_unfold)

lemma Status_finish: "Status (finish fmtD r e) \<in> {''success'', ''failed''}"
  by (simp add: finish_def Let_def split: option.splits run_error.splits)

lemma Execute_parts:
  "objects (snd (snd (Execute wr uuid now workdir command commandID commandName username w)))
     = objects w @
       [\<lparr>ID = uuid, CommandID = commandID, Name = commandName, Workdir = workdir,
         Command = command, Status = ''running'', Output = [], ExitCode = 0,
         ExecutedBy = username, StartedAt = now, EndedAt = zeroTime, Duration = []\<rparr>]"
  "goroutines (snd (snd (Execute wr uuid now workdir command commandID commandName username w)))
     = goroutines w @ [length (objects w)]"
  by (simp_all add: Execute_def Let_def)

lemma DeleteExecution_parts:
  "objects (snd (DeleteExecution wr id' w)) = objects w"
  "goroutines (snd (DeleteExecution wr id' w)) = goroutines w"
  by (simp_all add: DeleteExecution_def Let_def)

lemma ClearExecutions_parts:
  "objects (ClearExecutions wr w) = objects w"
  "goroutines (ClearExecutions wr w) = goroutines w"
  by (simp_all add: ClearExecutions_def Let_def)

text \<open>What one step does to the record at a pointer.\<close>

lemma step_status:
  assumes "step fmtD ev w = Some w'" and "goroutinesRunning w" and "a < length (objects w)"
  shows "goroutinesRunning w' \<and> a < length (objects w') \<and>
         (Status (objects w' ! a) = Status (objects w ! a) \<and>
            (a \<in> set (goroutines w') \<longleftrightarrow> a \<in> set (goroutines w)) \<or>
          Status (objects w ! a) = ''running'' \<and> a \<in> set (goroutines w) \<and>
            a \<notin> set (goroutines w') \<and> Status (objects w' ! a) \<in> {''success'', ''failed''})"
proof (cases ev)
  case (EvExecute wr uuid now workdir command commandID commandName username)
  have w': "w' = snd (snd (Execute wr uuid now workdir command commandID commandName username w))"
    using assms(1) EvExecute by simp
  have fresh: "length (objects w) \<notin> set (goroutines w)"
    using assms(2) by (auto simp: goroutinesRunning_def list_all_iff)
  have "goroutinesRunning w'"
    using assms(2) fresh unfolding goroutinesRunning_def w' Execute_parts
    by (auto simp: list_all_iff nth_append)
  moreover have "a \<noteq> length (objects w)" using assms(3) by simp
  ultimately show ?thesis
    using assms(3) unfolding w' Execute_parts by (simp add: nth_append)
next
  case (EvRunCommand wr r b)
  have b: "b \<in> set (goroutines w)" and w': "w' = runCommand fmtD wr r b w"
    using assms(1) EvRunCommand by (simp_all split: if_splits)
  have bl: "b < length (objects w)" and br: "Status (objects w ! b) = ''running''"
    using assms(2) b by (auto simp: goroutinesRunning_def list_all_iff)
  have d: "distinct (goroutines w)" using assms(2) by (simp add: goroutinesRunning_def)
  have run: "goroutinesRunning w'"
    using assms(2) d unfolding goroutinesRunning_def w' objects_runCommand goroutines_runCommand
    by (auto simp: list_all_iff nth_list_update)
  show ?thesis
  proof (cases "a = b")
    case True
    have "Status (objects w' ! a) \<in> {''success'', ''failed''}"
      unfolding w' objects_runCommand using True bl Status_finish [of fmtD r "objects w ! b"]
      by simp
    moreover have "a \<notin> set (goroutines w')"
      unfolding w' goroutines_runCommand using True d by simp
    ultimately show ?thesis
      using run True b br assms(3) by (simp add: w' objects_runCommand)
  next
    case False
    then have "Status (objects w' ! a) = Status (objects w ! a)"
      unfolding w' objects_runCommand by simp
    moreover have "a \<in> set (goroutines w') \<longleftrightarrow> a \<in> set (goroutines w)"
      unfolding w' goroutines_runCommand using False by simp
    ultimately show ?thesis
      using run assms(3) by (simp add: w' objects_runCommand)
  qed
next
  case (EvDelete wr id')
  then have w': "w' = snd (DeleteExecution wr id' w)" using assms(1) by simp
  show ?thesis
    using assms(2,3) unfolding w' goroutinesRunning_def DeleteExecution_parts by simp
next
  case (EvClear wr)
  then have w': "w' = ClearExecutions wr w" using assms(1) by simp
  show ?thesis
    using assms(2,3) unfolding w' goroutinesRunning_def ClearExecutions_parts by simp
qed

text \<open>Every step keeps the goroutines on running records of their own.\<close>

lemma step_goroutinesRunning:
  assumes "step fmtD ev w = Some w'" and "goroutinesRunning w"
  shows "goroutinesRunning w'"
proof (cases ev)
  case (EvExecute wr uuid now workdir command commandID commandName username)
  then have "w' = snd (snd (Execute wr uuid now workdir command commandID commandName username w))"
    using assms(1) by simp
  moreover have "length (objects w) \<notin> set (goroutines w)"
    using assms(2) by (auto simp: goroutinesRunning_def list_all_iff)
  ultimately show ?thesis
    using assms(2) unfolding goroutinesRunning_def
    by (auto simp: Execute_parts list_all_iff nth_append)
next
  case (EvRunCommand wr r c)
  then have "c \<in> set (goroutines w)" using assms(1) by (simp split: if_splits)
  with assms(2) have "c < length (objects w)"
    by (auto simp: goroutinesRunning_def list_all_iff)
  from step_status [OF assms this] show ?thesis by blast
next
  case (EvDelete wr id')
  then have "w' = snd (DeleteExecution wr id' w)" using assms(1) by simp
  then show ?thesis
    using assms(2) by (simp add: goroutinesRunning_def DeleteExecution_parts)
next
  case (EvClear wr)
  then have "w' = ClearExecutions wr w" using assms(1) by simp
  then show ?thesis
    using assms(2) by (simp add: goroutinesRunning_def ClearExecutions_parts)
qed

lemma run_goroutinesRunning:
  "run fmtD evs w = Some w' \<Longrightarrow> goroutinesRunning w \<Longrightarrow> goroutinesRunning w'"
proof (induction evs arbitrary: w)
  case Nil
  then show ?case by simp
next
  case (Cons ev evs)
  from Cons.prems(1) obtain w1 where
    s: "step fmtD ev w = Some w1" and r: "run fmtD evs w1 = Some w'"
    by (auto split: option.splits)
  from Cons.IH [OF r step_goroutinesRunning [OF s Cons.prems(2)]] show ?case .
qed

text \<open>What a run does to a record that was allocated before it.\<close>

lemma run_status:
  assumes "run fmtD evs w = Some w'" and "goroutinesRunning w" and "a < length (objects w)"
  shows "goroutinesRunning w' \<and> a < length (objects w') \<and>
         (Status (objects w' ! a) = Status (objects w ! a) \<and>
            (a \<in> set (goroutines w') \<longleftrightarrow> a \<in> set (goroutines w)) \<or>
          Status (objects w ! a) = ''running'' \<and> a \<in> set (goroutines w) \<and>
            a \<notin> set (goroutines w') \<and> Status (objects w' ! a) \<in> {''success'', ''failed''})"
  using assms
proof (induction evs arbitrary: w)
  case Nil
  then show ?case by simp
next
  case (Cons ev evs)
  from Cons.prems(1) obtain w1 where
    s: "step fmtD ev w = Some w1" and r: "run fmtD evs w1 = Some w'"
    by (auto split: option.splits)
  from step_status [OF s Cons.prems(2,3)] have
    g1: "goroutinesRunning w1" and a1: "a < length (objects w1)" and
    c1: "Status (objects w1 ! a) = Status (objects w ! a) \<and>
            (a \<in> set (goroutines w1) \<longleftrightarrow> a \<in> set (goroutines w)) \<or>
          Status (objects w ! a) = ''running'' \<and> a \<in> set (goroutines w) \<and>
            a \<notin> set (goroutines w1) \<and> Status (objects w1 ! a) \<in> {''success'', ''failed''}"
    by blast+
  from Cons.IH [OF r g1 a1] have
    g2: "goroutinesRunning w'" and a2: "a < length (objects w')" and
    c2: "Status (objects w' ! a) = Status (objects w1 ! a) \<and>
            (a \<in> set (goroutines w') \<longleftrightarrow> a \<in> set (goroutines w1)) \<or>
          Status (objects w1 ! a) = ''running'' \<and> a \<in> set (goroutines w1) \<and>
            a \<notin> set (goroutines w') \<and> Status (objects w' ! a) \<in> {''success'', ''failed''}"
    by blast+
  from c1 c2 have
    "Status (objects w' ! a) = Status (objects w ! a) \<and>
            (a \<in> set (goroutines w') \<longleftrightarrow> a \<in> set (goroutines w)) \<or>
          Status (objects w ! a) = ''running'' \<and> a \<in> set (goroutines w) \<and>
            a \<notin> set (goroutines w') \<and> Status (objects w' ! a) \<in> {''success'', ''failed''}"
    by metis
  with g2 a2 show ?case by blast
qed

text \<open>What one step allocates is running, with its goroutine pending.\<close>

lemma step_created:
  assumes "step fmtD ev w = Some w'" and "length (objects w) \<le> b" and "b < length (objects w')"
  shows "Status (objects w' ! b) = ''running'' \<and> b \<in> set (goroutines w')"
proof (cases ev)
  case (EvExecute wr uuid now workdir command commandID commandName username)
  have w': "w' = snd (snd (Execute wr uuid now workdir command commandID commandName username w))"
    using assms(1) EvExecute by simp
  from assms(2,3) have "b = length (objects w)"
    unfolding w' Execute_parts by simp
  then show ?thesis
    unfolding w' Execute_parts by simp
next
  case (EvRunCommand wr r c)
  then have "w' = runCommand fmtD wr r c w"
    using assms(1) by (simp split: if_splits)
  with assms(2,3) show ?thesis by (simp add: objects_runCommand)
next
  case (EvDelete wr id')
  then have "w' = snd (DeleteExecution wr id' w)" using assms(1) by simp
  with assms(2,3) show ?thesis by (simp add: DeleteExecution_parts)
next
  case (EvClear wr)
  then have "w' = ClearExecutions wr w" using assms(1) by simp
  with assms(2,3) show ?thesis by (simp add: ClearExecutions_parts)
qed

lemma run_created:
  assumes "run fmtD evs w = Some w'" and "goroutinesRunning w"
    and "length (objects w) \<le> b" and "b < length (objects w')"
  shows "Status (objects w' ! b) = ''running'' \<and> b \<in> set (goroutines w') \<or>
         Status (objects w' ! b) \<in> {''success'', ''failed''} \<and> b \<notin> set (goroutines w')"
  using assms
proof (induction evs arbitrary: w)
  case Nil
  then show ?case by simp
next
  case (Cons ev evs)
  from Cons.prems(1) obtain w1 where
    s: "step fmtD ev w = Some w1" and r: "run fmtD evs w1 = Some w'"
    by (auto split: option.splits)
  have g1: "goroutinesRunning w1"
    using step_goroutinesRunning [OF s Cons.prems(2)] .
  show ?case
  proof (cases "b < length (objects w1)")
    case True
    from step_created [OF s Cons.prems(3) True] have
      "Status (objects w1 ! b) = ''running''" "b \<in> set (goroutines w1)" by blast+
    with run_status [OF r g1 True] show ?thesis by metis
  next
    case False
    then have "length (objects w1) \<le> b" by simp
    from Cons.IH [OF r g1 this Cons.prems(4)] show ?thesis .
  qed
qed

text \<open>
  C2. Take any run of the executor (submissions, completions, deletions and clears in
  any order) from a state where every pending goroutine holds a running record, as
  after \<^verbatim>\<open>NewExecutor\<close>. A record allocated before the run has, at its end, the status
  it had, or it was \<open>running\<close>, its own goroutine has finished in between, and it is now
  \<open>success\<close> or \<open>failed\<close>. A record allocated during the run is \<open>running\<close> with its
  goroutine pending, or \<open>success\<close> or \<open>failed\<close> with its goroutine gone. The state at
  the end is again such a state, so the same holds for every later stretch of the run:
  once the goroutine is gone the status stays, and a status other than \<open>running\<close> never
  changes.
\<close>

theorem status_changes_at_most_once:
  assumes "run fmtD evs w = Some w'" and "goroutinesRunning w" and "a < length (objects w')"
  shows "goroutinesRunning w' \<and>
         (if a < length (objects w)
          then Status (objects w' ! a) = Status (objects w ! a) \<and>
                 (a \<in> set (goroutines w') \<longleftrightarrow> a \<in> set (goroutines w)) \<or>
               Status (objects w ! a) = ''running'' \<and> a \<in> set (goroutines w) \<and>
                 a \<notin> set (goroutines w') \<and>
                 Status (objects w' ! a) \<in> {''success'', ''failed''}
          else Status (objects w' ! a) = ''running'' \<and> a \<in> set (goroutines w') \<or>
               Status (objects w' ! a) \<in> {''success'', ''failed''} \<and>
                 a \<notin> set (goroutines w'))"
proof -
  have g: "goroutinesRunning w'"
    using run_goroutinesRunning [OF assms(1,2)] .
  show ?thesis
  proof (cases "a < length (objects w)")
    case True
    from run_status [OF assms(1,2) True] True show ?thesis by simp
  next
    case False
    then have "length (objects w) \<le> a" by simp
    from run_created [OF assms(1,2) this assms(3)] g False show ?thesis by simp
  qed
qed

lemma exampleExecutor_running: "goroutinesRunning exampleExecutor"
  by (simp add: goroutinesRunning_def exampleExecutor_def exampleRecord_def)

lemma exampleExecutor_run:
  "run exampleFmt
     [EvRunCommand WriteOk \<lparr>stdout = [], stderr = [], fate = Exited 7, endTime = 9\<rparr> 0,
      EvDelete WriteOk ''u1'', EvClear WriteOk] exampleExecutor
   = Some (ClearExecutions WriteOk (snd (DeleteExecution WriteOk ''u1''
       (runCommand exampleFmt WriteOk
          \<lparr>stdout = [], stderr = [], fate = Exited 7, endTime = 9\<rparr> 0 exampleExecutor))))"
  by (simp add: exampleExecutor_def)

text \<open>The command \<^verbatim>\<open>exit 7\<close> finishes, then its record is deleted and the history cleared.\<close>

theorem status_changes_at_most_once_witness:
  "goroutinesRunning exampleExecutor \<and>
   Status (objects exampleExecutor ! 0) = ''running'' \<and>
   (\<exists>w'. run exampleFmt
           [EvRunCommand WriteOk \<lparr>stdout = [], stderr = [], fate = Exited 7, endTime = 9\<rparr> 0,
            EvDelete WriteOk ''u1'', EvClear WriteOk] exampleExecutor = Some w' \<and>
         0 < length (objects w') \<and>
         0 \<notin> set (goroutines w') \<and> Status (objects w' ! 0) \<in> {''success'', ''failed''})"
proof -
  let ?w = "ClearExecutions WriteOk (snd (DeleteExecution WriteOk ''u1''
       (runCommand exampleFmt WriteOk
          \<lparr>stdout = [], stderr = [], fate = Exited 7, endTime = 9\<rparr> 0 exampleExecutor)))"
  have h: "0 < length (objects exampleExecutor)"
    "Status (objects exampleExecutor ! 0) = ''running''"
    by (simp_all add: exampleExecutor_def exampleRecord_def)
  have l: "0 < length (objects ?w)"
    by (simp add: ClearExecutions_parts DeleteExecution_parts objects_runCommand
          exampleExecutor_def)
  have n: "0 \<notin> set (goroutines ?w)"
    by (simp add: ClearExecutions_parts DeleteExecution_parts goroutines_runCommand
          exampleExecutor_def)
  have p: "0 \<in> set (goroutines exampleExecutor)"
    by (simp add: exampleExecutor_def)
  from status_changes_at_most_once [OF exampleExecutor_run exampleExecutor_running l] h n p
  have "Status (objects ?w ! 0) \<in> {''success'', ''failed''}"
    by simp
  with exampleExecutor_run exampleExecutor_running h l n show ?thesis by blast
qed

section \<open>Saving and loading\<close>

lemma toValidUTF8_valid: "validUTF8 s \<Longrightarrow> toValidUTF8 s = s"
proof (induction s rule: toValidUTF8.induct)
  case 1
  then show ?case by simp
next
  case (2 c cs)
  from "2.prems" have w: "runeWidth (c # cs) \<noteq> 0"
    and v: "validUTF8 (drop (runeWidth (c # cs)) (c # cs))"
    by (simp_all del: runeWidth.simps split: if_splits)
  from "2.IH"(2) [OF w v] w show ?case
    by (simp del: runeWidth.simps)
qed

lemma orZero_omitempty: "validUTF8 s \<Longrightarrow> orZero (omitempty s) = s"
  by (simp add: orZero_def omitempty_def toValidUTF8_valid)

lemma orZero_Some: "orZero (Some s) = s"
  by (simp add: orZero_def)

lemma unmarshal_marshal:
  assumes "jsonExact e"
  shows "\<exists>j. marshalExecution e = Inr j \<and> unmarshalExecution j = e"
  using assms
  by (cases e)
     (simp add: jsonExact_def marshalExecution_def unmarshalExecution_def orZero_omitempty
        toValidUTF8_valid orZero_Some)

lemma marshalMembers_exact:
  "list_all (\<lambda>(k, e). validUTF8 k \<and> jsonExact e) m \<Longrightarrow>
   \<exists>doc. marshalMembers m = Inr doc \<and> map (\<lambda>(k, j). (k, unmarshalExecution j)) doc = m"
proof (induction m)
  case Nil
  then show ?case by simp
next
  case (Cons x m)
  obtain k e where x: "x = (k, e)" by (cases x)
  from Cons.prems x have k: "validUTF8 k" and e: "jsonExact e"
    and m: "list_all (\<lambda>(k, e). validUTF8 k \<and> jsonExact e) m"
    by simp_all
  from unmarshal_marshal [OF e] obtain j where j: "marshalExecution e = Inr j"
    "unmarshalExecution j = e" by blast
  from Cons.IH [OF m] obtain doc where doc: "marshalMembers m = Inr doc"
    "map (\<lambda>(k, j). (k, unmarshalExecution j)) doc = m" by blast
  show ?case
    using x j doc k by (simp add: toValidUTF8_valid)
qed

lemma map_of_fold_update:
  "map_of (fold (\<lambda>(k, j) m. AList.update k (g j) m) doc acc)
     = map_of acc ++ map_of (rev (map (\<lambda>(k, j). (k, g j)) doc))"
proof (induction doc arbitrary: acc)
  case Nil
  then show ?case by simp
next
  case (Cons x doc)
  obtain k j where x: "x = (k, j)" by (cases x)
  have "map_of (fold (\<lambda>(k, j) m. AList.update k (g j) m) (x # doc) acc)
          = map_of (AList.update k (g j) acc) ++ map_of (rev (map (\<lambda>(k, j). (k, g j)) doc))"
    unfolding x by (simp add: Cons.IH)
  also have "map_of (AList.update k (g j) acc) = (map_of acc)(k \<mapsto> g j)"
    by (rule update_conv')
  also have "(map_of acc)(k \<mapsto> g j) ++ map_of (rev (map (\<lambda>(k, j). (k, g j)) doc))
          = map_of acc ++ map_of (rev (map (\<lambda>(k, j). (k, g j)) (x # doc)))"
    unfolding x by (simp add: map_add_def fun_eq_iff split: option.splits)
  finally show ?case .
qed

lemma map_of_Unmarshal:
  "map_of (Unmarshal doc) = map_of (rev (map (\<lambda>(k, j). (k, unmarshalExecution j)) doc))"
  by (simp add: Unmarshal_def map_of_fold_update)

lemma map_of_rev_distinct: "distinct (map fst xs) \<Longrightarrow> map_of (rev xs) = map_of xs"
  by (subst map_of_inject_set) (simp_all add: rev_map [symmetric])

lemma map_of_sort_key_distinct:
  "distinct (map fst xs) \<Longrightarrow> map_of (sort_key fst xs) = map_of xs"
proof -
  assume d: "distinct (map fst xs)"
  have "mset (map fst (sort_key fst xs)) = mset (map fst xs)" by simp
  then have "distinct (map fst (sort_key fst xs))"
    using d by (metis mset_eq_imp_distinct_iff)
  then show ?thesis
    using d by (subst map_of_inject_set) simp_all
qed

text \<open>
  C8 (as the code has it). For a map (distinct keys) whose keys and strings are valid
  UTF-8 and whose times lie in the years 0 to 9999, \<^verbatim>\<open>SaveExecutions\<close> with a
  successful write followed by \<^verbatim>\<open>LoadExecutions\<close> reports no error and gives a map
  equal to the saved one, record by record and field by field. An optional field is
  absent in a Go record when it is the empty string: it is then left out of the file
  (\<^verbatim>\<open>command_id\<close>, \<^verbatim>\<open>duration\<close>) and comes back as the empty string.
\<close>

theorem save_then_load:
  assumes "distinct (map fst m)"
    and "list_all (\<lambda>(k, e). validUTF8 k \<and> jsonExact e) m"
  shows "fst (SaveExecutions WriteOk m f) = None \<and>
         snd (LoadExecutions (snd (SaveExecutions WriteOk m f))) = None \<and>
         map_of (fst (LoadExecutions (snd (SaveExecutions WriteOk m f)))) = map_of m"
proof -
  have "list_all (\<lambda>(k, e). validUTF8 k \<and> jsonExact e) (sort_key fst m)"
    using assms(2) by (simp add: list_all_iff)
  from marshalMembers_exact [OF this] obtain doc where
    doc: "marshalMembers (sort_key fst m) = Inr doc"
    and un: "map (\<lambda>(k, j). (k, unmarshalExecution j)) doc = sort_key fst m"
    by blast
  have save: "SaveExecutions WriteOk m f = (None, Stored (Document doc))"
    by (simp add: SaveExecutions_def MarshalIndent_def doc WriteFile_def)
  have load: "LoadExecutions (Stored (Document doc)) = (Unmarshal doc, None)"
    by (simp add: LoadExecutions_def)
  have d: "distinct (map fst (sort_key fst m))"
  proof -
    have "mset (map fst (sort_key fst m)) = mset (map fst m)" by simp
    then show ?thesis using assms(1) by (metis mset_eq_imp_distinct_iff)
  qed
  have "map_of (Unmarshal doc) = map_of (rev (sort_key fst m))"
    by (simp add: map_of_Unmarshal un)
  also have "\<dots> = map_of (sort_key fst m)"
    using d by (rule map_of_rev_distinct)
  also have "\<dots> = map_of m"
    using assms(1) by (rule map_of_sort_key_distinct)
  finally show ?thesis
    by (simp add: save load)
qed

lemma exampleRecord_jsonExact: "jsonExact exampleRecord"
  by code_simp

theorem save_then_load_witness:
  "distinct (map fst [(''u1'', exampleRecord)]) \<and>
   list_all (\<lambda>(k, e). validUTF8 k \<and> jsonExact e) [(''u1'', exampleRecord)] \<and>
   fst (SaveExecutions WriteOk [(''u1'', exampleRecord)] NoFile) = None \<and>
   map_of (fst (LoadExecutions (snd (SaveExecutions WriteOk [(''u1'', exampleRecord)] NoFile))))
     ''u1'' = Some exampleRecord \<and>
   CommandID exampleRecord = [] \<and> Duration exampleRecord = []"
proof -
  have h: "distinct (map fst [(''u1'', exampleRecord)])"
    "list_all (\<lambda>(k, e). validUTF8 k \<and> jsonExact e) [(''u1'', exampleRecord)]"
    using exampleRecord_jsonExact by (simp_all add: between_def)
  have z: "CommandID exampleRecord = [] \<and> Duration exampleRecord = []"
    by (simp add: exampleRecord_def)
  from save_then_load [OF h, of NoFile] h z show ?thesis
    by (simp add: between_def exampleRecord_jsonExact)
qed

text \<open>
  A command that printed the single byte FF: the save succeeds, and the record loaded
  back has the three bytes of U+FFFD as its output.
\<close>

theorem save_then_load_counterexample:
  "fst (SaveExecutions WriteOk [(''u1'', exampleRecord\<lparr>Output := [CHR 0xFF]\<rparr>)] NoFile) = None \<and>
   map_option Output
     (map_of (fst (LoadExecutions (snd (SaveExecutions WriteOk
        [(''u1'', exampleRecord\<lparr>Output := [CHR 0xFF]\<rparr>)] NoFile)))) ''u1'')
     = Some [CHR 0xEF, CHR 0xBF, CHR 0xBD] \<and>
   map_of (fst (LoadExecutions (snd (SaveExecutions WriteOk
        [(''u1'', exampleRecord\<lparr>Output := [CHR 0xFF]\<rparr>)] NoFile))))
     \<noteq> map_of [(''u1'', exampleRecord\<lparr>Output := [CHR 0xFF]\<rparr>)]"
proof -
  have a: "fst (SaveExecutions WriteOk [(''u1'', exampleRecord\<lparr>Output := [CHR 0xFF]\<rparr>)] NoFile) = None"
    by code_simp
  have b: "map_option Output
     (map_of (fst (LoadExecutions (snd (SaveExecutions WriteOk
        [(''u1'', exampleRecord\<lparr>Output := [CHR 0xFF]\<rparr>)] NoFile)))) ''u1'')
     = Some [CHR 0xEF, CHR 0xBF, CHR 0xBD]"
    by code_simp
  have c: "map_option Output (map_of [(''u1'', exampleRecord\<lparr>Output := [CHR 0xFF]\<rparr>)] ''u1'')
     = Some [CHR 0xFF]"
    by simp
  have d: "map_of (fst (LoadExecutions (snd (SaveExecutions WriteOk
        [(''u1'', exampleRecord\<lparr>Output := [CHR 0xFF]\<rparr>)] NoFile))))
     \<noteq> map_of [(''u1'', exampleRecord\<lparr>Output := [CHR 0xFF]\<rparr>)]"
  proof
    assume "map_of (fst (LoadExecutions (snd (SaveExecutions WriteOk
        [(''u1'', exampleRecord\<lparr>Output := [CHR 0xFF]\<rparr>)] NoFile))))
     = map_of [(''u1'', exampleRecord\<lparr>Output := [CHR 0xFF]\<rparr>)]"
    with b have "map_option Output
       (map_of [(''u1'', exampleRecord\<lparr>Output := [CHR 0xFF]\<rparr>)] ''u1'')
       = Some [CHR 0xEF, CHR 0xBF, CHR 0xBD]"
      by simp
    then show False by simp
  qed
  from a b d show ?thesis by blast
qed

end
